theory Spec2Isabelle
  imports Main
begin

section \<open>Price-update ingestion: a model of \<open>PriceProcessorService\<close>\<close>

text \<open>
  The service (\<^verbatim>\<open>services/priceProcessor\<close>) is an asynchronous TypeScript class. Each
  \<^verbatim>\<open>async\<close> method is modelled by the pieces of code that run without interruption
  between two \<^verbatim>\<open>await\<close>s; a call that is suspended at an \<^verbatim>\<open>await\<close> is a value of type
  \<open>pc\<close> that records where it waits and the local variables that are still live. The
  event loop is a list of actions: a new call of \<^verbatim>\<open>startProcessing\<close>, or the delivery
  of an event (an answer of the object store, a stream event, the resumption of a
  settled promise) to one suspended call.
\<close>

subsection \<open>JavaScript values\<close>

text \<open>
  A thrown value: an \<^verbatim>\<open>Error\<close> object with its message, or any other value, kept as
  the string that \<^verbatim>\<open>String(error)\<close> gives.
\<close>

datatype thrown = JsError string | NonError string

text \<open>
  A JavaScript number as \<^verbatim>\<open>parseFloat\<close> produces it. \<open>Dec neg m e\<close> stands for the
  double nearest to \<open>m * 10 ^ e\<close>, negated when \<open>neg\<close> holds; what is kept is the sign,
  the digits and the decimal exponent that were read, from which the double is determined.
\<close>

datatype number = NaN | Infinity bool | Dec bool nat int

definition is_digit :: "char \<Rightarrow> bool" where
  "is_digit c = (48 \<le> (of_char c :: nat) \<and> (of_char c :: nat) \<le> 57)"

definition is_white :: "char \<Rightarrow> bool" where
  \<comment> \<open>TAB, LF, VT, FF, CR and space: the white space and line terminators of one byte\<close>
  "is_white c = ((of_char c :: nat) \<in> {9, 10, 11, 12, 13, 32})"

definition digits_val :: "string \<Rightarrow> nat" where
  "digits_val ds = foldl (\<lambda>a c. 10 * a + ((of_char c :: nat) - 48)) 0 ds"

text \<open>
  \<^verbatim>\<open>ExponentPart\<close>: \<^verbatim>\<open>e\<close> or \<^verbatim>\<open>E\<close>, an optional sign and at least one digit. A text that
  does not start with a complete exponent part is not part of the literal: exponent 0.
\<close>

definition exponent_part :: "string \<Rightarrow> int" where
  "exponent_part s =
     (case s of
        [] \<Rightarrow> 0
      | c # r \<Rightarrow>
          if c = CHR ''e'' \<or> c = CHR ''E'' then
            (case r of
               [] \<Rightarrow> 0
             | d # r' \<Rightarrow>
                 if d = CHR ''+'' then int (digits_val (takeWhile is_digit r'))
                 else if d = CHR ''-'' then - int (digits_val (takeWhile is_digit r'))
                 else int (digits_val (takeWhile is_digit r)))
          else 0)"

text \<open>
  The longest prefix that is a \<^verbatim>\<open>StrUnsignedDecimalLiteral\<close>: \<^verbatim>\<open>Infinity\<close>, digits with
  an optional fraction and exponent, or a dot followed by digits. No such prefix: NaN.
\<close>

definition unsigned_literal :: "bool \<Rightarrow> string \<Rightarrow> number" where
  "unsigned_literal neg s =
     (if take 8 s = ''Infinity'' then Infinity neg
      else
        let ip = takeWhile is_digit s; r = dropWhile is_digit s in
        (case r of
           [] \<Rightarrow> if ip = [] then NaN else Dec neg (digits_val ip) 0
         | c # r' \<Rightarrow>
             if c = CHR ''.'' then
               (let fp = takeWhile is_digit r'; r'' = dropWhile is_digit r' in
                if ip = [] \<and> fp = [] then NaN
                else Dec neg (digits_val (ip @ fp)) (exponent_part r'' - int (length fp)))
             else if ip = [] then NaN
             else Dec neg (digits_val ip) (exponent_part r)))"

text \<open>
  \<^verbatim>\<open>parseFloat(v)\<close>: the argument is converted to a string (\<^verbatim>\<open>undefined\<close> becomes the
  text "undefined"), leading white space is dropped, an optional sign is read, and the
  longest prefix that is a decimal literal gives the value. A \<open>string\<close> is a list of
  bytes: the white space characters that take several bytes in UTF-8 are not modelled,
  and no statement below is about a text that starts with a byte above 127.
\<close>

definition parseFloat :: "string option \<Rightarrow> number" where
  "parseFloat v =
     (let s = dropWhile is_white (case v of None \<Rightarrow> ''undefined'' | Some t \<Rightarrow> t) in
      case s of
        [] \<Rightarrow> NaN
      | c # r \<Rightarrow>
          if c = CHR ''+'' then unsigned_literal False r
          else if c = CHR ''-'' then unsigned_literal True r
          else unsigned_literal False s)"

text \<open>
  The test \<^verbatim>\<open>x >= 0\<close> of JavaScript on the double: false for NaN, true for both zeros.
  A text with a minus sign gives negative zero when its digits are all zero, and also
  when its magnitude is at most \<open>2 ^ - 1075\<close>, half of the least positive double, which
  rounding to the nearest double (ties to even) takes to zero.
\<close>

fun ge_zero :: "number \<Rightarrow> bool" where
  "ge_zero NaN = False"
| "ge_zero (Infinity neg) = (\<not> neg)"
| "ge_zero (Dec neg m e) =
     (\<not> neg \<or> m = 0 \<or> (e < 0 \<and> m * 2 ^ 1075 \<le> 10 ^ nat (- e)))"

subsection \<open>Data\<close>

text \<open>\<^verbatim>\<open>interface PriceUpdate\<close>; a column that the file lacks reads as \<^verbatim>\<open>undefined\<close>.\<close>

record PriceUpdate =
  vehicleId :: "string option"
  newPrice :: number
  timestamp :: nat

text \<open>A row of \<^verbatim>\<open>csv-parser\<close>: an object from the header names to the cell texts.\<close>

type_synonym row = "string \<rightharpoonup> string"

text \<open>An entry of \<^verbatim>\<open>listResult.Contents\<close>; \<open>LastModified\<close> is \<^verbatim>\<open>getTime()\<close> of the date.\<close>

record s3_object =
  Key :: "string option"
  LastModified :: "int option"

text \<open>The fields of the class (lines 10 to 12); the S3 client has no state of interest.\<close>

record PriceProcessorService =
  isProcessing :: bool
  processingQueue :: "PriceUpdate list"
  processingLock :: bool

datatype level = INFO | WARN | ERROR

type_synonym log_entry = "level \<times> string \<times> string option"

text \<open>Calls to the collaborators: the object store, the file system, the repository.\<close>

datatype extcall =
    S3ListObjectsV2 string string
  | S3GetObject string string
  | FsCreateReadStream
  | RepoUpdatePrice "string option" number

text \<open>
  What a step reads from outside at the moment it runs: the environment variable
  \<^verbatim>\<open>AWS_S3_BUCKET\<close>, \<^verbatim>\<open>fs.existsSync(localPath)\<close> and the clock (\<^verbatim>\<open>new Date()\<close>).
\<close>

record env =
  AWS_S3_BUCKET :: "string option"
  existsSync :: bool
  now :: nat

text \<open>The service together with what it has written to the log and asked of others.\<close>

record world =
  svc :: PriceProcessorService
  logged :: "log_entry list"
  calls :: "extcall list"

definition initial :: world where
  "initial = \<lparr>svc = \<lparr>isProcessing = False, processingQueue = [], processingLock = False\<rparr>,
              logged = [], calls = []\<rparr>"

definition logger :: "level \<Rightarrow> string \<Rightarrow> string option \<Rightarrow> world \<Rightarrow> world" where
  "logger l msg meta w = w\<lparr>logged := logged w @ [(l, msg, meta)]\<rparr>"

definition extern :: "extcall \<Rightarrow> world \<Rightarrow> world" where
  "extern c w = w\<lparr>calls := calls w @ [c]\<rparr>"

subsection \<open>Suspended calls\<close>

datatype settled = Resolved | Rejected thrown

text \<open>Which stream \<^verbatim>\<open>processCSVStream\<close> reads: the object \<^verbatim>\<open>latestFile.Key\<close> or the local file.\<close>

datatype feed = Remote string | LocalFile

datatype origin = FromS3 | FromLocal

text \<open>
  Where a call of \<^verbatim>\<open>startProcessing\<close> waits:
  \<^item> \<open>AwaitList b\<close>: line 72, for the listing of bucket \<open>b\<close>;
  \<^item> \<open>AwaitStream f ups\<close>: lines 100 and 128, while the stream delivers rows, with the
    array \<^verbatim>\<open>updates\<close> collected so far;
  \<^item> \<open>AwaitApply f\<close>: line 158, in the \<^verbatim>\<open>end\<close> handler;
  \<^item> \<open>StreamSettled f r\<close>: the promise of \<^verbatim>\<open>processCSVStream\<close> is settled, lines 100 and
    128 have not resumed yet;
  \<^item> \<open>SourceSettled o r\<close>: the promise of \<^verbatim>\<open>processFromS3\<close> or \<^verbatim>\<open>processFromLocal\<close> is
    settled, lines 44 and 47 have not resumed yet;
  \<^item> \<open>Finished r\<close>: the promise of \<^verbatim>\<open>startProcessing\<close> itself is settled;
  \<^item> \<open>Exited\<close>: the process has exited while the call was suspended; its promise is
    never settled.
\<close>

datatype pc =
    AwaitList string
  | AwaitStream feed "PriceUpdate list"
  | AwaitApply feed
  | StreamSettled feed settled
  | SourceSettled origin settled
  | Finished settled
  | Exited

fun is_finished :: "pc \<Rightarrow> bool" where
  "is_finished (Finished r) = True"
| "is_finished p = False"

text \<open>
  What reaches a suspended call: the outcome of \<^verbatim>\<open>listObjectsV2\<close> (an error, or the
  field \<^verbatim>\<open>Contents\<close>, which may be absent), the events \<^verbatim>\<open>data\<close>, \<^verbatim>\<open>end\<close> and \<^verbatim>\<open>error\<close> of
  the parser stream on which lines 148, 156 and 168 register their handlers, and the
  resumption of the code behind an \<^verbatim>\<open>await\<close> whose promise is settled. \<open>ReadError\<close> is the
  event \<^verbatim>\<open>error\<close> of the underlying read stream (the body of the downloaded object, the
  local file): \<^verbatim>\<open>pipe\<close> does not pass it on to the parser stream and the service
  registers no handler on the read stream.
\<close>

datatype event =
    ListResult "thrown + s3_object list option"
  | Data row
  | End
  | StreamError thrown
  | ReadError thrown
  | Resume

subsection \<open>The methods\<close>

text \<open>\<^verbatim>\<open>processUpdatesConcurrently\<close>, lines 175 to 182.\<close>

definition processUpdatesConcurrently :: "PriceUpdate list \<Rightarrow> world \<Rightarrow> world" where
  "processUpdatesConcurrently updates w =
     (if length updates = 0 then logger INFO ''No price updates to process'' None w
      else logger INFO ''Price updates processed successfully'' None w)"

text \<open>The \<^verbatim>\<open>data\<close> handler of \<^verbatim>\<open>processCSVStream\<close>, lines 148 to 155.\<close>

definition on_data :: "env \<Rightarrow> row \<Rightarrow> PriceUpdate list \<Rightarrow> PriceUpdate list" where
  "on_data e r updates =
     updates @ [\<lparr>vehicleId = r ''vehicle_id'',
                 newPrice = parseFloat (r ''new_price''),
                 timestamp = now e\<rparr>]"

text \<open>The \<^verbatim>\<open>catch\<close> blocks of \<^verbatim>\<open>processFromS3\<close> (103 to 110) and \<^verbatim>\<open>processFromLocal\<close> (131 to 138).\<close>

definition catch_meta :: "thrown \<Rightarrow> string" where
  "catch_meta x = (case x of JsError m \<Rightarrow> m | NonError s \<Rightarrow> ''Unknown error'')"

definition processFromS3_catch :: "thrown \<Rightarrow> world \<Rightarrow> world \<times> pc" where
  "processFromS3_catch x w =
     (logger ERROR ''Failed to process S3 CSV'' (Some (catch_meta x)) w,
      SourceSettled FromS3 (Rejected x))"

definition processFromLocal_catch :: "thrown \<Rightarrow> world \<Rightarrow> world \<times> pc" where
  "processFromLocal_catch x w =
     (logger ERROR ''Failed to process local CSV'' (Some (catch_meta x)) w,
      SourceSettled FromLocal (Rejected x))"

text \<open>\<^verbatim>\<open>processFromS3\<close> up to its first \<^verbatim>\<open>await\<close>, lines 63 to 75.\<close>

definition processFromS3 :: "env \<Rightarrow> world \<Rightarrow> world \<times> pc" where
  "processFromS3 e w =
     (case AWS_S3_BUCKET e of
        None \<Rightarrow>
          (logger WARN ''S3 bucket not configured, skipping S3 processing'' None w,
           SourceSettled FromS3 Resolved)
      | Some bucketName \<Rightarrow>
          if bucketName = [] then
            (logger WARN ''S3 bucket not configured, skipping S3 processing'' None w,
             SourceSettled FromS3 Resolved)
          else (extern (S3ListObjectsV2 bucketName ''price-updates/'') w, AwaitList bucketName))"

text \<open>
  \<^verbatim>\<open>Array.prototype.sort\<close> with a comparison function is stable (ECMAScript 2019): among
  elements that compare equal the order of the array is kept. Insertion from the right,
  each element placed before the first one it does not have to follow, computes it.
\<close>

fun insert_by :: "('a \<Rightarrow> 'a \<Rightarrow> int) \<Rightarrow> 'a \<Rightarrow> 'a list \<Rightarrow> 'a list" where
  "insert_by cmp x [] = [x]"
| "insert_by cmp x (y # ys) = (if cmp x y \<le> 0 then x # y # ys else y # insert_by cmp x ys)"

definition sort_by :: "('a \<Rightarrow> 'a \<Rightarrow> int) \<Rightarrow> 'a list \<Rightarrow> 'a list" where
  "sort_by cmp xs = foldr (insert_by cmp) xs []"

definition endsWith :: "string \<Rightarrow> string \<Rightarrow> bool" where
  "endsWith s suffix =
     (length suffix \<le> length s \<and> drop (length s - length suffix) s = suffix)"

definition getTime_or_0 :: "s3_object \<Rightarrow> int" where
  \<comment> \<open>\<^verbatim>\<open>obj.LastModified?.getTime() || 0\<close>\<close>
  "getTime_or_0 obj = (case LastModified obj of None \<Rightarrow> 0 | Some t \<Rightarrow> t)"

definition is_csv :: "s3_object \<Rightarrow> bool" where
  \<comment> \<open>\<^verbatim>\<open>obj.Key?.endsWith('.csv')\<close>\<close>
  "is_csv obj = (case Key obj of None \<Rightarrow> False | Some k \<Rightarrow> endsWith k ''.csv'')"

text \<open>Lines 83 to 85: filter, sort by descending modification time, element 0.\<close>

definition latestFile :: "s3_object list \<Rightarrow> s3_object option" where
  "latestFile contents =
     (case sort_by (\<lambda>a b. getTime_or_0 b - getTime_or_0 a) (filter is_csv contents) of
        [] \<Rightarrow> None
      | obj # rest \<Rightarrow> Some obj)"

text \<open>\<^verbatim>\<open>processFromS3\<close> after the listing has arrived, lines 77 to 100.\<close>

definition processFromS3_listed :: "string \<Rightarrow> s3_object list option \<Rightarrow> world \<Rightarrow> world \<times> pc" where
  "processFromS3_listed bucketName listResult w =
     (let none_found = (logger INFO ''No CSV files found in S3 bucket'' None w,
                        SourceSettled FromS3 Resolved) in
      case listResult of
        None \<Rightarrow> none_found
      | Some contents \<Rightarrow>
          if length contents = 0 then none_found
          else
            (case latestFile contents of
               None \<Rightarrow> none_found
             | Some obj \<Rightarrow>
                 (case Key obj of
                    None \<Rightarrow> none_found
                  | Some k \<Rightarrow>
                      if k = [] then none_found
                      else
                        (extern (S3GetObject bucketName k)
                           (logger INFO (''Processing CSV file: '' @ k) None w),
                         AwaitStream (Remote k) []))))"

text \<open>\<^verbatim>\<open>processFromLocal\<close> up to its \<^verbatim>\<open>await\<close>, lines 115 to 128.\<close>

definition processFromLocal :: "env \<Rightarrow> world \<Rightarrow> world \<times> pc" where
  "processFromLocal e w =
     (if \<not> existsSync e then
        (logger INFO ''No local CSV file found'' None w, SourceSettled FromLocal Resolved)
      else
        (extern FsCreateReadStream (logger INFO ''Processing local CSV file'' None w),
         AwaitStream LocalFile []))"

text \<open>The \<^verbatim>\<open>catch\<close> and \<^verbatim>\<open>finally\<close> blocks of \<^verbatim>\<open>startProcessing\<close>, lines 50 to 59.\<close>

definition startProcessing_catch :: "thrown \<Rightarrow> world \<Rightarrow> world" where
  "startProcessing_catch x w =
     (case x of JsError m \<Rightarrow> logger ERROR m None w | NonError s \<Rightarrow> logger ERROR s None w)"

definition startProcessing_finally :: "world \<Rightarrow> world" where
  "startProcessing_finally w =
     w\<lparr>svc := (svc w)\<lparr>processingLock := False, isProcessing := False\<rparr>\<rparr>"

text \<open>
  \<^verbatim>\<open>startProcessing\<close>, lines 31 to 44: the guard, the two flags, and \<^verbatim>\<open>processFromS3\<close> up
  to the point where it first waits.
\<close>

definition startProcessing :: "env \<Rightarrow> world \<Rightarrow> world \<times> pc" where
  "startProcessing e w =
     (if processingLock (svc w) then
        (logger WARN ''Price processing already in progress'' None w, Finished Resolved)
      else
        processFromS3 e
          (logger INFO ''Starting price processing from S3 CSV'' None
             (w\<lparr>svc := (svc w)\<lparr>processingLock := True, isProcessing := True\<rparr>\<rparr>)))"

text \<open>
  An \<^verbatim>\<open>error\<close> event without a handler is thrown as an uncaught exception. The handler
  of the process for \<^verbatim>\<open>uncaughtException\<close> (the application module, lines 146 to 149)
  logs it and calls \<^verbatim>\<open>process.exit(1)\<close>: no code of the service runs after it, so the
  flags keep the values they had.
\<close>

definition uncaughtException :: "thrown \<Rightarrow> world \<Rightarrow> world" where
  "uncaughtException x w =
     logger ERROR ''Uncaught Exception:''
       (case x of JsError m \<Rightarrow> Some m | NonError s \<Rightarrow> None) w"

text \<open>
  The continuation of a suspended call when an event reaches it. \<open>None\<close>: the event
  cannot occur at that point (a settled call receives nothing more).
\<close>

definition resume :: "env \<Rightarrow> event \<Rightarrow> pc \<Rightarrow> world \<Rightarrow> (world \<times> pc) option" where
  "resume e ev p w =
     (case p of
        AwaitList bucketName \<Rightarrow>
          (case ev of
             ListResult (Inr listResult) \<Rightarrow> Some (processFromS3_listed bucketName listResult w)
           | ListResult (Inl x) \<Rightarrow> Some (processFromS3_catch x w)
           | _ \<Rightarrow> None)
      | AwaitStream f updates \<Rightarrow>
          (case ev of
             Data r \<Rightarrow> Some (w, AwaitStream f (on_data e r updates))
           | End \<Rightarrow> Some (processUpdatesConcurrently updates w, AwaitApply f)
           | StreamError x \<Rightarrow> Some (w, StreamSettled f (Rejected x))
           | ReadError x \<Rightarrow> Some (uncaughtException x w, Exited)
           | _ \<Rightarrow> None)
      | AwaitApply f \<Rightarrow>
          (case ev of Resume \<Rightarrow> Some (w, StreamSettled f Resolved) | _ \<Rightarrow> None)
      | StreamSettled f r \<Rightarrow>
          (case ev of
             Resume \<Rightarrow>
               (case (f, r) of
                  (Remote k, Resolved) \<Rightarrow>
                    Some (logger INFO (''Successfully processed '' @ k) None w,
                          SourceSettled FromS3 Resolved)
                | (Remote k, Rejected x) \<Rightarrow> Some (processFromS3_catch x w)
                | (LocalFile, Resolved) \<Rightarrow>
                    Some (logger INFO ''Successfully processed local CSV file'' None w,
                          SourceSettled FromLocal Resolved)
                | (LocalFile, Rejected x) \<Rightarrow> Some (processFromLocal_catch x w))
           | _ \<Rightarrow> None)
      | SourceSettled orig r \<Rightarrow>
          (case ev of
             Resume \<Rightarrow>
               (case (orig, r) of
                  (FromS3, Resolved) \<Rightarrow> Some (processFromLocal e w)
                | (FromLocal, Resolved) \<Rightarrow>
                    Some (startProcessing_finally
                            (logger INFO ''Price processing completed successfully'' None w),
                          Finished Resolved)
                | (_, Rejected x) \<Rightarrow>
                    Some (startProcessing_finally (startProcessing_catch x w), Finished Resolved))
           | _ \<Rightarrow> None)
      | Finished r \<Rightarrow> None
      | Exited \<Rightarrow> None)"

text \<open>\<^verbatim>\<open>getProcessingStatus\<close> and \<^verbatim>\<open>isCurrentlyProcessing\<close>, lines 184 to 193.\<close>

definition getProcessingStatus :: "PriceProcessorService \<Rightarrow> bool \<times> nat" where
  "getProcessingStatus s = (isProcessing s, length (processingQueue s))"

definition isCurrentlyProcessing :: "PriceProcessorService \<Rightarrow> bool" where
  "isCurrentlyProcessing s = isProcessing s"

subsection \<open>The event loop\<close>

text \<open>
  \<open>Call e\<close>: some caller (the scheduler, the trigger endpoint) invokes
  \<^verbatim>\<open>startProcessing\<close>. \<open>Deliver i e ev\<close>: event \<open>ev\<close> reaches the \<open>i\<close>-th call made so
  far; an event for a call that does not wait for it changes nothing. After the process
  has exited nothing runs any more; the lists of actions that go on after that point
  describe no execution, and the statements about all lists of actions hold for them
  as well.
\<close>

datatype action = Call env | Deliver nat env event

fun perform :: "action \<Rightarrow> world \<times> pc list \<Rightarrow> world \<times> pc list" where
  "perform (Call e) (w, ts) = (case startProcessing e w of (w', p) \<Rightarrow> (w', ts @ [p]))"
| "perform (Deliver i e ev) (w, ts) =
     (if i < length ts then
        (case resume e ev (ts ! i) w of
           None \<Rightarrow> (w, ts)
         | Some (w', p) \<Rightarrow> (w', ts[i := p]))
      else (w, ts))"

definition run :: "action list \<Rightarrow> world \<times> pc list" where
  "run acts = foldl (\<lambda>s a. perform a s) (initial, []) acts"

text \<open>The events of one call, delivered in order; an event that cannot occur is skipped.\<close>

fun deliver :: "(env \<times> event) list \<Rightarrow> world \<times> pc \<Rightarrow> world \<times> pc" where
  "deliver [] s = s"
| "deliver ((e, ev) # rest) (w, p) =
     (case resume e ev p w of
        None \<Rightarrow> deliver rest (w, p)
      | Some s' \<Rightarrow> deliver rest s')"

subsection \<open>The trigger endpoint\<close>

record response =
  status :: nat
  success :: bool
  body :: string

text \<open>\<^verbatim>\<open>logger.logError\<close>: level error, the message of the error as meta data.\<close>

definition logError :: "thrown \<Rightarrow> world \<Rightarrow> world" where
  "logError x w =
     logger ERROR ''Application Error'' (case x of JsError m \<Rightarrow> Some m | NonError s \<Rightarrow> None) w"

text \<open>
  \<^verbatim>\<open>HealthController.triggerPriceProcessing\<close>, lines 375 to 403 of the controller. The
  first argument is the outcome of the dynamic \<^verbatim>\<open>import\<close> of the service module; the
  rest runs without interruption. The result holds the call it has started, if any: the
  handler answers without awaiting it.
\<close>

definition triggerPriceProcessing ::
    "thrown + unit \<Rightarrow> env \<Rightarrow> world \<Rightarrow> world \<times> pc option \<times> response" where
  "triggerPriceProcessing imported e w =
     (case imported of
        Inl x \<Rightarrow>
          (logError x w, None,
           \<lparr>status = 500, success = False, body = ''Failed to trigger price processing''\<rparr>)
      | Inr u \<Rightarrow>
          if isCurrentlyProcessing (svc w) then
            (w, None,
             \<lparr>status = 409, success = False, body = ''Price processing already in progress''\<rparr>)
          else
            (case startProcessing e w of
               (w', p) \<Rightarrow>
                 (w', Some p,
                  \<lparr>status = 200, success = True, body = ''Price processing started''\<rparr>)))"

subsection \<open>Notions used in the statements\<close>

text \<open>The calls that have not settled.\<close>

definition pending :: "pc list \<Rightarrow> pc list" where
  "pending ts = filter (\<lambda>p. \<not> is_finished p) ts"

text \<open>The price updates that reached the repository, in order.\<close>

fun applied :: "extcall list \<Rightarrow> (string option \<times> number) list" where
  "applied [] = []"
| "applied (RepoUpdatePrice i p # cs) = (i, p) # applied cs"
| "applied (c # cs) = applied cs"

definition inv :: "world \<times> pc list \<Rightarrow> bool" where
  "inv s =
     (case s of
        (w, ts) \<Rightarrow>
          isProcessing (svc w) = processingLock (svc w) \<and>
          processingQueue (svc w) = [] \<and>
          length (pending ts) = (if processingLock (svc w) then 1 else 0) \<and>
          applied (calls w) = [])"

text \<open>The first object of a list among those with the latest modification time.\<close>

fun first_newest :: "s3_object list \<Rightarrow> s3_object option" where
  "first_newest [] = None"
| "first_newest (x # xs) =
     (case first_newest xs of
        None \<Rightarrow> Some x
      | Some h \<Rightarrow> if getTime_or_0 h \<le> getTime_or_0 x then Some x else Some h)"

subsection \<open>Sample inputs\<close>

definition env_s3 :: env where
  "env_s3 = \<lparr>AWS_S3_BUCKET = Some ''feeds'', existsSync = True, now = 1000\<rparr>"

definition env_local :: env where
  "env_local = \<lparr>AWS_S3_BUCKET = None, existsSync = True, now = 2000\<rparr>"

definition obj_a :: s3_object where
  "obj_a = \<lparr>Key = Some ''price-updates/a.csv'', LastModified = Some 50\<rparr>"

definition obj_b :: s3_object where
  "obj_b = \<lparr>Key = Some ''price-updates/b.csv'', LastModified = Some 50\<rparr>"

definition row_of :: "string \<Rightarrow> string \<Rightarrow> row" where
  "row_of i p = [''vehicle_id'' \<mapsto> i, ''new_price'' \<mapsto> p]"

text \<open>A call whose listing request fails.\<close>

definition failed_listing :: "action list" where
  "failed_listing =
     [Call env_s3, Deliver 0 env_s3 (ListResult (Inl (JsError ''NetworkingError'')))]"

text \<open>A run with two rows in the remote feed and one row in the local file.\<close>

definition both_sources :: "action list" where
  "both_sources =
     [Call env_s3,
      Deliver 0 env_s3 (ListResult (Inr (Some [obj_a]))),
      Deliver 0 env_s3 (Data (row_of ''v1'' ''100'')),
      Deliver 0 env_s3 (Data (row_of ''v2'' ''250.50'')),
      Deliver 0 env_s3 End,
      Deliver 0 env_s3 Resume,
      Deliver 0 env_s3 Resume,
      Deliver 0 env_s3 Resume,
      Deliver 0 env_s3 (Data (row_of ''v3'' ''99'')),
      Deliver 0 env_s3 End,
      Deliver 0 env_s3 Resume,
      Deliver 0 env_s3 Resume,
      Deliver 0 env_s3 Resume]"

text \<open>
  A call that a remote error \<open>x\<close> has put on its way out: the rejection travels up to
  \<^verbatim>\<open>startProcessing\<close>, or the call has settled.
\<close>

fun gave_up :: "thrown \<Rightarrow> pc \<Rightarrow> bool" where
  "gave_up x (StreamSettled (Remote k) (Rejected y)) = (y = x)"
| "gave_up x (SourceSettled FromS3 (Rejected y)) = (y = x)"
| "gave_up x (Finished Resolved) = True"
| "gave_up x p = False"

text \<open>The array \<^verbatim>\<open>updates\<close> after the \<^verbatim>\<open>data\<close> handler has run on each row in turn.\<close>

definition collected :: "(env \<times> row) list \<Rightarrow> PriceUpdate list \<Rightarrow> PriceUpdate list" where
  "collected rows updates = foldl (\<lambda>ups (e, r). on_data e r ups) updates rows"

text \<open>A local file of five rows whose third price is not a number.\<close>

definition bad_feed :: "action list" where
  "bad_feed =
     [Call env_local,
      Deliver 0 env_local Resume,
      Deliver 0 env_local (Data (row_of ''v1'' ''100'')),
      Deliver 0 env_local (Data (row_of ''v2'' ''200'')),
      Deliver 0 env_local (Data (row_of ''v3'' ''abc'')),
      Deliver 0 env_local (Data (row_of ''v4'' ''400'')),
      Deliver 0 env_local (Data (row_of ''v5'' ''500'')),
      Deliver 0 env_local End,
      Deliver 0 env_local Resume]"

section \<open>Every state the event loop can reach\<close>

lemma applied_append: "applied (xs @ ys) = applied xs @ applied ys"
  by (induction xs rule: applied.induct) simp_all

lemma pending_update:
  "i < length ts \<Longrightarrow>
   length (pending (ts[i := p])) + (if is_finished (ts ! i) then 0 else 1) =
   length (pending ts) + (if is_finished p then 0 else 1)"
proof (induction ts arbitrary: i)
  case Nil
  then show ?case by simp
next
  case (Cons t ts)
  show ?case
  proof (cases i)
    case 0
    then show ?thesis by (simp add: pending_def)
  next
    case (Suc j)
    with Cons.prems have "j < length ts" by simp
    from Cons.IH [OF this] Suc show ?thesis
      by (auto simp: pending_def split: if_splits)
  qed
qed

lemmas method_defs =
  startProcessing_def processFromS3_def processFromS3_listed_def processFromLocal_def
  processFromS3_catch_def processFromLocal_catch_def startProcessing_catch_def
  startProcessing_finally_def processUpdatesConcurrently_def uncaughtException_def
  logger_def extern_def

lemma resume_effect:
  assumes "resume e ev p w = Some (w', p')"
  shows "\<not> is_finished p"
    and "processingQueue (svc w') = processingQueue (svc w)"
    and "applied (calls w') = applied (calls w)"
    and "\<not> is_finished p' \<Longrightarrow> svc w' = svc w"
    and "is_finished p' \<Longrightarrow>
           \<not> processingLock (svc w') \<and> \<not> isProcessing (svc w') \<and> p' = Finished Resolved"
  using assms
  by (auto simp: resume_def method_defs applied_append Let_def
      split: pc.splits event.splits sum.splits option.splits feed.splits settled.splits
        origin.splits if_splits thrown.splits)

lemma startProcessing_rejected:
  "processingLock (svc w) \<Longrightarrow>
   startProcessing e w =
     (logger WARN ''Price processing already in progress'' None w, Finished Resolved)"
  by (simp add: startProcessing_def)

lemma startProcessing_admitted:
  assumes "\<not> processingLock (svc w)" and "startProcessing e w = (w', p)"
  shows "\<not> is_finished p"
    and "processingLock (svc w')"
    and "isProcessing (svc w')"
    and "processingQueue (svc w') = processingQueue (svc w)"
    and "applied (calls w') = applied (calls w)"
  using assms
  by (auto simp: method_defs applied_append split: option.splits if_splits)

lemma inv_initial: "inv (initial, [])"
  by (simp add: inv_def initial_def pending_def)

lemma inv_call:
  assumes "inv (w, ts)"
  shows "inv (perform (Call e) (w, ts))"
proof (cases "processingLock (svc w)")
  case True
  with assms show ?thesis
    by (simp add: startProcessing_rejected inv_def logger_def pending_def)
next
  case False
  obtain w' p where sp: "startProcessing e w = (w', p)"
    by (cases "startProcessing e w")
  from startProcessing_admitted [OF False sp] assms False sp show ?thesis
    by (simp add: inv_def pending_def)
qed

lemma inv_deliver:
  assumes "inv (w, ts)"
  shows "inv (perform (Deliver i e ev) (w, ts))"
proof (cases "i < length ts")
  case False
  with assms show ?thesis by simp
next
  case inb: True
  show ?thesis
  proof (cases "resume e ev (ts ! i) w")
    case None
    with assms inb show ?thesis by simp
  next
    case (Some s')
    obtain w' p' where s': "s' = (w', p')" by (cases s')
    with Some have r: "resume e ev (ts ! i) w = Some (w', p')" by simp
    note eff = resume_effect [OF r]
    from pending_update [OF inb, of p'] eff(1)
    have cnt: "length (pending (ts[i := p'])) + 1 =
               length (pending ts) + (if is_finished p' then 0 else 1)"
      by simp
    from eff(1) inb have "ts ! i \<in> set (pending ts)"
      by (simp add: pending_def)
    then have "length (pending ts) \<noteq> 0"
      by (cases "pending ts") auto
    with assms have lock: "processingLock (svc w)"
      by (auto simp: inv_def split: if_splits)
    show ?thesis
    proof (cases "is_finished p'")
      case True
      with eff(5) eff(2) eff(3) assms cnt lock inb r show ?thesis
        by (simp add: inv_def)
    next
      case False
      with eff(4) eff(3) assms cnt lock inb r show ?thesis
        by (simp add: inv_def)
    qed
  qed
qed

lemma inv_perform: "inv s \<Longrightarrow> inv (perform a s)"
  by (cases s; cases a) (simp_all only: inv_call inv_deliver)

lemma inv_run: "inv (run acts)"
proof (induction acts rule: rev_induct)
  case Nil
  show ?case by (simp add: run_def inv_initial)
next
  case (snoc a acts)
  then show ?case by (simp add: run_def inv_perform)
qed

lemma inv_run_fst:
  "isProcessing (svc (fst (run acts))) = processingLock (svc (fst (run acts)))"
  "processingQueue (svc (fst (run acts))) = []"
  "applied (calls (fst (run acts))) = []"
  "length (pending (snd (run acts))) = (if processingLock (svc (fst (run acts))) then 1 else 0)"
  using inv_run [of acts] by (auto simp: inv_def split: prod.splits if_splits)

text \<open>
  C9. Whatever calls are made and whatever events arrive, \<^verbatim>\<open>processingQueue\<close> is empty:
  nothing adds to it, and \<^verbatim>\<open>getProcessingStatus\<close> reports the queue length 0.
\<close>

theorem queue_always_empty:
  "processingQueue (svc (fst (run acts))) = [] \<and>
   snd (getProcessingStatus (svc (fst (run acts)))) = 0"
  by (simp add: getProcessingStatus_def inv_run_fst(2))

text \<open>
  C10. In every state between two uninterrupted pieces of code, \<^verbatim>\<open>isProcessing\<close> equals
  \<^verbatim>\<open>processingLock\<close>: \<^verbatim>\<open>isCurrentlyProcessing\<close> returns the value of the guard, and a
  new call of \<^verbatim>\<open>startProcessing\<close> is turned away exactly when it returns true.
\<close>

theorem observable_flag_is_guard:
  "isCurrentlyProcessing (svc (fst (run acts))) = processingLock (svc (fst (run acts))) \<and>
   is_finished (snd (startProcessing e (fst (run acts)))) =
     isCurrentlyProcessing (svc (fst (run acts)))"
proof (cases "processingLock (svc (fst (run acts)))")
  case True
  then show ?thesis
    by (simp add: isCurrentlyProcessing_def inv_run_fst(1) startProcessing_rejected)
next
  case False
  obtain w' p where sp: "startProcessing e (fst (run acts)) = (w', p)"
    by (cases "startProcessing e (fst (run acts))")
  from startProcessing_admitted(1) [OF False sp] False sp show ?thesis
    by (simp add: isCurrentlyProcessing_def inv_run_fst(1))
qed

section \<open>Single flight\<close>

lemma pending_single:
  assumes "length (pending ts) = 1" and "i < length ts" and "\<not> is_finished (ts ! i)"
  shows "pending ts = [ts ! i]"
proof -
  from assms(2,3) have mem: "ts ! i \<in> set (pending ts)"
    by (simp add: pending_def)
  from assms(1) obtain p where "pending ts = [p]"
    by (cases "pending ts") auto
  with mem show ?thesis by simp
qed

lemma run_pending_locked:
  assumes "i < length (snd (run acts))" and "\<not> is_finished (snd (run acts) ! i)"
  shows "processingLock (svc (fst (run acts)))"
proof -
  from assms have "snd (run acts) ! i \<in> set (pending (snd (run acts)))"
    by (simp add: pending_def)
  then have "length (pending (snd (run acts))) \<noteq> 0"
    by (cases "pending (snd (run acts))") auto
  with inv_run_fst(4) [of acts] show ?thesis
    by (simp split: if_splits)
qed

text \<open>
  C2. While a call of \<^verbatim>\<open>startProcessing\<close> has not settled, it is the only one that has
  not, and a further call finds the guard set: it writes one warning to the log, changes
  neither the flags nor the list of external calls, is settled at once as resolved (it
  raises nothing) and never receives an event; the call that was running stays the only
  one at work.
\<close>

theorem second_call_is_turned_away:
  assumes "run acts = (w, ts)" and "i < length ts" and "\<not> is_finished (ts ! i)"
  shows "pending ts = [ts ! i] \<and>
         startProcessing e w =
           (w\<lparr>logged := logged w @ [(WARN, ''Price processing already in progress'', None)]\<rparr>,
            Finished Resolved) \<and>
         pending (snd (perform (Call e) (w, ts))) = [ts ! i] \<and>
         resume e' ev (snd (startProcessing e w)) w' = None"
proof -
  from assms have lock: "processingLock (svc w)"
    using run_pending_locked [of i acts] by simp
  with inv_run_fst(4) [of acts] assms(1) have one: "length (pending ts) = 1"
    by simp
  from pending_single [OF one assms(2,3)] have single: "pending ts = [ts ! i]" .
  from lock have sp: "startProcessing e w =
      (w\<lparr>logged := logged w @ [(WARN, ''Price processing already in progress'', None)]\<rparr>,
       Finished Resolved)"
    by (simp add: startProcessing_rejected logger_def)
  from single sp have after: "pending (snd (perform (Call e) (w, ts))) = [ts ! i]"
    by (simp add: pending_def)
  from sp have "resume e' ev (snd (startProcessing e w)) w' = None"
    by (simp add: resume_def)
  with single sp after show ?thesis by simp
qed

theorem second_call_witness:
  "run [Call env_s3] =
     (\<lparr>svc = \<lparr>isProcessing = True, processingQueue = [], processingLock = True\<rparr>,
       logged = [(INFO, ''Starting price processing from S3 CSV'', None)],
       calls = [S3ListObjectsV2 ''feeds'' ''price-updates/'']\<rparr>,
      [AwaitList ''feeds'']) \<and>
   startProcessing env_s3 (fst (run [Call env_s3])) =
     (\<lparr>svc = \<lparr>isProcessing = True, processingQueue = [], processingLock = True\<rparr>,
       logged = [(INFO, ''Starting price processing from S3 CSV'', None),
                 (WARN, ''Price processing already in progress'', None)],
       calls = [S3ListObjectsV2 ''feeds'' ''price-updates/'']\<rparr>,
      Finished Resolved)"
proof -
  have r: "run [Call env_s3] =
     (\<lparr>svc = \<lparr>isProcessing = True, processingQueue = [], processingLock = True\<rparr>,
       logged = [(INFO, ''Starting price processing from S3 CSV'', None)],
       calls = [S3ListObjectsV2 ''feeds'' ''price-updates/'']\<rparr>,
      [AwaitList ''feeds''])"
    by (simp add: run_def initial_def env_s3_def startProcessing_def processFromS3_def
        logger_def extern_def)
  from second_call_is_turned_away [OF r, of 0 env_s3] r show ?thesis
    by simp
qed

lemma run_snoc: "run (acts @ [a]) = perform a (run acts)"
  by (simp add: run_def)

lemma run_append: "run (acts @ later) = foldl (\<lambda>s a. perform a s) (run acts) later"
  by (simp add: run_def)

text \<open>Events delivered to one call of the event loop are the events of that call.\<close>

lemma foldl_deliver:
  "i < length ts \<Longrightarrow>
   foldl (\<lambda>s a. perform a s) (w, ts) (map (\<lambda>(e, ev). Deliver i e ev) evs) =
     (fst (deliver evs (w, ts ! i)), ts[i := snd (deliver evs (w, ts ! i))])"
proof (induction evs arbitrary: w ts)
  case Nil
  then show ?case by simp
next
  case (Cons a evs)
  obtain e ev where a: "a = (e, ev)" by (cases a)
  show ?case
  proof (cases "resume e ev (ts ! i) w")
    case None
    with Cons a show ?thesis by simp
  next
    case (Some s')
    obtain w' p' where s': "s' = (w', p')" by (cases s')
    from Cons.prems have len: "i < length (ts[i := p'])" by simp
    from Cons.IH [OF len, of w'] Cons.prems Some s' a show ?thesis by simp
  qed
qed

lemma run_deliver:
  assumes "run acts = (w, ts)" and "i < length ts"
  shows "run (acts @ map (\<lambda>(e, ev). Deliver i e ev) evs) =
     (fst (deliver evs (w, ts ! i)), ts[i := snd (deliver evs (w, ts ! i))])"
  using assms foldl_deliver [of i ts w evs] by (simp add: run_append)

lemma run_pending_iff:
  "(pending (snd (run acts)) \<noteq> []) = processingLock (svc (fst (run acts)))"
  using inv_run_fst(4) [of acts] by (auto split: if_splits)

text \<open>
  C5. When an event settles a call that the guard had admitted, whether the run went
  well or a step raised an error, the promise is resolved, both flags are false in the
  resulting state, no call is left unsettled, and the next call of \<^verbatim>\<open>startProcessing\<close>
  is admitted and starts a run.
\<close>

theorem guard_released_when_settled:
  assumes "run acts = (w, ts)" and "i < length ts"
    and "resume e ev (ts ! i) w = Some (w', Finished r)"
  shows "r = Resolved \<and>
         run (acts @ [Deliver i e ev]) = (w', ts[i := Finished r]) \<and>
         \<not> isCurrentlyProcessing (svc w') \<and>
         \<not> processingLock (svc w') \<and>
         pending (ts[i := Finished r]) = [] \<and>
         \<not> is_finished (snd (startProcessing e' w')) \<and>
         isCurrentlyProcessing (svc (fst (startProcessing e' w')))"
proof -
  from resume_effect(5) [OF assms(3)]
  have clr: "\<not> processingLock (svc w')" "\<not> isProcessing (svc w')" "r = Resolved"
    by simp_all
  from assms have nxt: "run (acts @ [Deliver i e ev]) = (w', ts[i := Finished r])"
    by (simp add: run_snoc)
  from run_pending_iff [of "acts @ [Deliver i e ev]"] nxt clr(1)
  have none: "pending (ts[i := Finished r]) = []"
    by simp
  obtain w2 p2 where sp: "startProcessing e' w' = (w2, p2)"
    by (cases "startProcessing e' w'")
  from startProcessing_admitted(1,3) [OF clr(1) sp] sp
  have again: "\<not> is_finished (snd (startProcessing e' w'))"
    "isCurrentlyProcessing (svc (fst (startProcessing e' w')))"
    by (simp_all add: isCurrentlyProcessing_def)
  from clr nxt none again show ?thesis
    by (simp add: isCurrentlyProcessing_def)
qed

lemma run_failed_listing:
  "run failed_listing =
     (\<lparr>svc = \<lparr>isProcessing = True, processingQueue = [], processingLock = True\<rparr>,
       logged = [(INFO, ''Starting price processing from S3 CSV'', None),
                 (ERROR, ''Failed to process S3 CSV'', Some ''NetworkingError'')],
       calls = [S3ListObjectsV2 ''feeds'' ''price-updates/'']\<rparr>,
      [SourceSettled FromS3 (Rejected (JsError ''NetworkingError''))])"
  by (simp add: failed_listing_def run_def initial_def env_s3_def startProcessing_def
      processFromS3_def logger_def extern_def resume_def processFromS3_catch_def catch_meta_def)

theorem guard_released_witness:
  "resume env_s3 Resume (snd (run failed_listing) ! 0) (fst (run failed_listing)) =
     Some (\<lparr>svc = \<lparr>isProcessing = False, processingQueue = [], processingLock = False\<rparr>,
            logged = [(INFO, ''Starting price processing from S3 CSV'', None),
                      (ERROR, ''Failed to process S3 CSV'', Some ''NetworkingError''),
                      (ERROR, ''NetworkingError'', None)],
            calls = [S3ListObjectsV2 ''feeds'' ''price-updates/'']\<rparr>,
           Finished Resolved) \<and>
   \<not> isCurrentlyProcessing
        (svc (fst (run (failed_listing @ [Deliver 0 env_s3 Resume])))) \<and>
   \<not> is_finished
        (snd (startProcessing env_local
           (fst (run (failed_listing @ [Deliver 0 env_s3 Resume])))))"
proof -
  let ?w' = "\<lparr>svc = \<lparr>isProcessing = False, processingQueue = [], processingLock = False\<rparr>,
            logged = [(INFO, ''Starting price processing from S3 CSV'', None),
                      (ERROR, ''Failed to process S3 CSV'', Some ''NetworkingError''),
                      (ERROR, ''NetworkingError'', None)],
            calls = [S3ListObjectsV2 ''feeds'' ''price-updates/'']\<rparr>"
  have len: "0 < length [SourceSettled FromS3 (Rejected (JsError ''NetworkingError''))]"
    by simp
  have step: "resume env_s3 Resume
       ([SourceSettled FromS3 (Rejected (JsError ''NetworkingError''))] ! 0)
       \<lparr>svc = \<lparr>isProcessing = True, processingQueue = [], processingLock = True\<rparr>,
       logged = [(INFO, ''Starting price processing from S3 CSV'', None),
                 (ERROR, ''Failed to process S3 CSV'', Some ''NetworkingError'')],
       calls = [S3ListObjectsV2 ''feeds'' ''price-updates/'']\<rparr> =
     Some (?w', Finished Resolved)"
    by (simp add: resume_def startProcessing_finally_def startProcessing_catch_def logger_def)
  from guard_released_when_settled [OF run_failed_listing len step, of env_local]
    run_failed_listing step
  show ?thesis by simp
qed

text \<open>
  C6. The trigger endpoint, once the service module is loaded: while a run is active it
  answers 409 and leaves the service, the log and the external calls as they are; when
  none is active it answers 200 having started \<^verbatim>\<open>startProcessing\<close>, which is suspended
  (not settled) at the time of the answer.
\<close>

theorem trigger_conflict_or_acknowledge:
  assumes "run acts = (w, ts)"
  shows "if pending ts \<noteq> [] then
           triggerPriceProcessing (Inr ()) e w =
             (w, None,
              \<lparr>status = 409, success = False,
               body = ''Price processing already in progress''\<rparr>)
         else
           triggerPriceProcessing (Inr ()) e w =
             (fst (startProcessing e w), Some (snd (startProcessing e w)),
              \<lparr>status = 200, success = True, body = ''Price processing started''\<rparr>) \<and>
           \<not> is_finished (snd (startProcessing e w)) \<and>
           isCurrentlyProcessing (svc (fst (startProcessing e w)))"
proof (cases "processingLock (svc w)")
  case True
  with run_pending_iff [of acts] inv_run_fst(1) [of acts] assms show ?thesis
    by (simp add: triggerPriceProcessing_def isCurrentlyProcessing_def)
next
  case False
  obtain w2 p2 where sp: "startProcessing e w = (w2, p2)"
    by (cases "startProcessing e w")
  from startProcessing_admitted(1,3) [OF False sp] sp
  have started: "\<not> is_finished (snd (startProcessing e w))"
    "isCurrentlyProcessing (svc (fst (startProcessing e w)))"
    by (simp_all add: isCurrentlyProcessing_def)
  from False run_pending_iff [of acts] inv_run_fst(1) [of acts] assms started sp
  show ?thesis
    by (simp add: triggerPriceProcessing_def isCurrentlyProcessing_def)
qed

theorem trigger_witness:
  "triggerPriceProcessing (Inr ()) env_s3 (fst (run [Call env_s3])) =
     (fst (run [Call env_s3]), None,
      \<lparr>status = 409, success = False, body = ''Price processing already in progress''\<rparr>) \<and>
   triggerPriceProcessing (Inr ()) env_s3 (fst (run [])) =
     (\<lparr>svc = \<lparr>isProcessing = True, processingQueue = [], processingLock = True\<rparr>,
       logged = [(INFO, ''Starting price processing from S3 CSV'', None)],
       calls = [S3ListObjectsV2 ''feeds'' ''price-updates/'']\<rparr>,
      Some (AwaitList ''feeds''),
      \<lparr>status = 200, success = True, body = ''Price processing started''\<rparr>)"
proof -
  have busy: "run [Call env_s3] =
     (\<lparr>svc = \<lparr>isProcessing = True, processingQueue = [], processingLock = True\<rparr>,
       logged = [(INFO, ''Starting price processing from S3 CSV'', None)],
       calls = [S3ListObjectsV2 ''feeds'' ''price-updates/'']\<rparr>,
      [AwaitList ''feeds''])"
    by (simp add: run_def initial_def env_s3_def startProcessing_def processFromS3_def
        logger_def extern_def)
  have idle: "run [] = (initial, [])"
    by (simp add: run_def)
  have sp: "startProcessing env_s3 initial =
     (\<lparr>svc = \<lparr>isProcessing = True, processingQueue = [], processingLock = True\<rparr>,
       logged = [(INFO, ''Starting price processing from S3 CSV'', None)],
       calls = [S3ListObjectsV2 ''feeds'' ''price-updates/'']\<rparr>,
      AwaitList ''feeds'')"
    by (simp add: initial_def env_s3_def startProcessing_def processFromS3_def
        logger_def extern_def)
  from trigger_conflict_or_acknowledge [OF busy, of env_s3]
    trigger_conflict_or_acknowledge [OF idle, of env_s3] busy idle sp
  show ?thesis by (simp add: pending_def)
qed

section \<open>Selecting the latest feed\<close>

lemma sort_by_Cons: "sort_by cmp (x # xs) = insert_by cmp x (sort_by cmp xs)"
  by (simp add: sort_by_def)

lemma head_newest_first:
  "(case sort_by (\<lambda>a b. getTime_or_0 b - getTime_or_0 a) xs of
      [] \<Rightarrow> None
    | obj # rest \<Rightarrow> Some obj) = first_newest xs"
proof (induction xs)
  case Nil
  show ?case by (simp add: sort_by_def)
next
  case (Cons x xs)
  then show ?case
    by (cases "sort_by (\<lambda>a b. getTime_or_0 b - getTime_or_0 a) xs")
      (auto simp: sort_by_Cons split: option.splits)
qed

lemma latestFile_first_newest: "latestFile contents = first_newest (filter is_csv contents)"
  by (simp add: latestFile_def head_newest_first)

lemma first_newest_split:
  "first_newest xs = Some obj \<Longrightarrow>
   \<exists>before after. xs = before @ obj # after \<and>
     (\<forall>a \<in> set before. getTime_or_0 a < getTime_or_0 obj) \<and>
     (\<forall>a \<in> set after. getTime_or_0 a \<le> getTime_or_0 obj)"
proof (induction xs arbitrary: obj)
  case Nil
  then show ?case by simp
next
  case (Cons x xs)
  show ?case
  proof (cases "first_newest xs")
    case None
    then have "xs = []" by (cases xs) (auto split: option.splits if_splits)
    with Cons.prems have "x # xs = [] @ obj # []" by simp
    then show ?thesis by (intro exI [of _ "[]"]) simp
  next
    case (Some h)
    from Cons.IH [OF Some] obtain before after where
      sp: "xs = before @ h # after"
      and lt: "\<forall>a \<in> set before. getTime_or_0 a < getTime_or_0 h"
      and le: "\<forall>a \<in> set after. getTime_or_0 a \<le> getTime_or_0 h"
      by blast
    show ?thesis
    proof (cases "getTime_or_0 h \<le> getTime_or_0 x")
      case True
      with Some Cons.prems have "obj = x" by simp
      moreover from sp lt le True have "\<forall>a \<in> set xs. getTime_or_0 a \<le> getTime_or_0 x"
        by fastforce
      ultimately have "x # xs = [] @ obj # xs \<and>
          (\<forall>a \<in> set []. getTime_or_0 a < getTime_or_0 obj) \<and>
          (\<forall>a \<in> set xs. getTime_or_0 a \<le> getTime_or_0 obj)"
        by simp
      then show ?thesis by blast
    next
      case False
      with Some Cons.prems have "obj = h" by simp
      with sp lt le False have "x # xs = (x # before) @ obj # after \<and>
          (\<forall>a \<in> set (x # before). getTime_or_0 a < getTime_or_0 obj) \<and>
          (\<forall>a \<in> set after. getTime_or_0 a \<le> getTime_or_0 obj)"
        by simp
      then show ?thesis by blast
    qed
  qed
qed

text \<open>
  C7. The object that a run selects from a listing depends on the listing alone: two
  runs that receive the same listing, in whatever state of the service, at whatever time
  and with whatever environment, select the same object and issue the same download.
  Among the \<^verbatim>\<open>.csv\<close> objects with the latest modification time it is the one that
  comes first in the listing.
\<close>

theorem latest_selection_deterministic:
  "map_option snd (resume e1 (ListResult (Inr listing)) (AwaitList b) w1) =
     map_option snd (resume e2 (ListResult (Inr listing)) (AwaitList b) w2) \<and>
   map_option (\<lambda>s. drop (length (calls w1)) (calls (fst s)))
       (resume e1 (ListResult (Inr listing)) (AwaitList b) w1) =
     map_option (\<lambda>s. drop (length (calls w2)) (calls (fst s)))
       (resume e2 (ListResult (Inr listing)) (AwaitList b) w2) \<and>
   latestFile (case listing of None \<Rightarrow> [] | Some contents \<Rightarrow> contents) =
     first_newest (filter is_csv (case listing of None \<Rightarrow> [] | Some contents \<Rightarrow> contents))"
  by (simp add: latestFile_first_newest resume_def processFromS3_listed_def logger_def
      extern_def Let_def split: option.splits)

theorem latest_selection_witness:
  "resume env_s3 (ListResult (Inr (Some [obj_a, obj_b]))) (AwaitList ''feeds'') initial =
     Some (\<lparr>svc = svc initial,
            logged = [(INFO, ''Processing CSV file: price-updates/a.csv'', None)],
            calls = [S3GetObject ''feeds'' ''price-updates/a.csv'']\<rparr>,
           AwaitStream (Remote ''price-updates/a.csv'') []) \<and>
   map_option snd
     (resume env_local (ListResult (Inr (Some [obj_a, obj_b]))) (AwaitList ''feeds'')
        (fst (run failed_listing))) =
     Some (AwaitStream (Remote ''price-updates/a.csv'') [])"
proof -
  have csv: "filter is_csv [obj_a, obj_b] = [obj_a, obj_b]"
    by (simp add: is_csv_def obj_a_def obj_b_def endsWith_def)
  have sel: "latestFile [obj_a, obj_b] = Some obj_a"
    unfolding latestFile_first_newest csv
    by (simp add: obj_a_def obj_b_def getTime_or_0_def)
  have first: "resume env_s3 (ListResult (Inr (Some [obj_a, obj_b]))) (AwaitList ''feeds'') initial =
     Some (\<lparr>svc = svc initial,
            logged = [(INFO, ''Processing CSV file: price-updates/a.csv'', None)],
            calls = [S3GetObject ''feeds'' ''price-updates/a.csv'']\<rparr>,
           AwaitStream (Remote ''price-updates/a.csv'') [])"
    by (simp add: resume_def processFromS3_listed_def sel)
      (simp add: obj_a_def initial_def logger_def extern_def)
  from latest_selection_deterministic
    [of env_local "Some [obj_a, obj_b]" "''feeds''" "fst (run failed_listing)" env_s3 initial]
    first
  show ?thesis by simp
qed

section \<open>Applying the updates\<close>

text \<open>
  C1. A run in which the remote feed yields two valid rows and the local file one: the
  rows are parsed, both sources are read, remote first, the call settles, and the
  repository has received no price update, where the claim asks for three.
\<close>

theorem both_sources_apply_nothing:
  "snd (run (take 4 both_sources)) =
     [AwaitStream (Remote ''price-updates/a.csv'')
        [\<lparr>vehicleId = Some ''v1'', newPrice = Dec False 100 0, timestamp = 1000\<rparr>,
         \<lparr>vehicleId = Some ''v2'', newPrice = Dec False 25050 (- 2), timestamp = 1000\<rparr>]] \<and>
   snd (run (take 9 both_sources)) =
     [AwaitStream LocalFile
        [\<lparr>vehicleId = Some ''v3'', newPrice = Dec False 99 0, timestamp = 1000\<rparr>]] \<and>
   snd (run both_sources) = [Finished Resolved] \<and>
   calls (fst (run both_sources)) =
     [S3ListObjectsV2 ''feeds'' ''price-updates/'',
      S3GetObject ''feeds'' ''price-updates/a.csv'', FsCreateReadStream] \<and>
   applied (calls (fst (run both_sources))) = []"
  by (simp add: both_sources_def run_def initial_def env_s3_def row_of_def resume_def
      startProcessing_def processFromS3_def processFromS3_listed_def processFromLocal_def
      startProcessing_finally_def processUpdatesConcurrently_def logger_def extern_def
      on_data_def latestFile_first_newest is_csv_def obj_a_def endsWith_def
      parseFloat_def unsigned_literal_def is_white_def is_digit_def digits_val_def
      exponent_part_def)

section \<open>Errors of the remote source\<close>

lemma resume_gave_up:
  assumes "gave_up x p" and "resume e ev p w = Some (w', p')"
  shows "gave_up x p' \<and> calls w' = calls w"
  using assms
  by (cases "(x, p)" rule: gave_up.cases)
    (auto simp: resume_def processFromS3_catch_def startProcessing_catch_def
      startProcessing_finally_def logger_def split: event.splits thrown.splits)

lemma deliver_gave_up:
  "gave_up x p \<Longrightarrow>
   gave_up x (snd (deliver evs (w, p))) \<and> calls (fst (deliver evs (w, p))) = calls w"
proof (induction evs arbitrary: w p)
  case Nil
  then show ?case by simp
next
  case (Cons a evs)
  obtain e ev where a: "a = (e, ev)" by (cases a)
  show ?case
  proof (cases "resume e ev p w")
    case None
    with Cons a show ?thesis by simp
  next
    case (Some s')
    obtain w' p' where s': "s' = (w', p')" by (cases s')
    from resume_gave_up [OF Cons.prems] Some s'
    have g: "gave_up x p'" and c: "calls w' = calls w" by simp_all
    from Cons.IH [OF g, of w'] c Some s' a show ?thesis by simp
  qed
qed

text \<open>
  An error of the read stream while the rows arrive: the process logs the uncaught
  exception and exits. The call makes no further external call, is never settled, and
  the flags stay as they were, whatever is delivered to it afterwards.
\<close>

lemma read_error_exits:
  "deliver ((e, ReadError x) # evs) (w, AwaitStream f ups) = (uncaughtException x w, Exited)"
proof -
  have stay: "deliver evs (w', Exited) = (w', Exited)" for w'
    by (induction evs) (auto simp: resume_def)
  show ?thesis by (simp add: resume_def stay)
qed

text \<open>
  C3, as the code has it. When the listing request of the remote source raises an
  error, or the parser stream of the remote feed emits an error, \<^verbatim>\<open>processFromS3\<close> logs
  it and throws it again: \<^verbatim>\<open>startProcessing\<close> logs it a second time, clears the flags
  and resolves, and whatever events follow, the call makes no further external call, so
  the local file is not read in that run. Only a bucket name that is not configured
  counts as "no remote updates": a warning is logged and the run goes on to read the
  local file.
\<close>

theorem remote_error_ends_run:
  "((ev = ListResult (Inl x) \<and> p = AwaitList b) \<or>
    (ev = StreamError x \<and> p = AwaitStream (Remote k) ups) \<longrightarrow>
      deliver [(e, ev), (e1, Resume), (e2, Resume)] (w, p) =
        (startProcessing_finally
           (w\<lparr>logged := logged w @
                [(ERROR, ''Failed to process S3 CSV'', Some (catch_meta x)),
                 (ERROR, (case x of JsError m \<Rightarrow> m | NonError s \<Rightarrow> s), None)]\<rparr>),
         Finished Resolved) \<and>
      calls (fst (deliver ((e, ev) # evs) (w, p))) = calls w \<and>
      gave_up x (snd (deliver ((e, ev) # evs) (w, p)))) \<and>
   (\<not> processingLock (svc w) \<and> existsSync e1 \<and>
    (AWS_S3_BUCKET e = None \<or> AWS_S3_BUCKET e = Some []) \<longrightarrow>
      snd (startProcessing e w) = SourceSettled FromS3 Resolved \<and>
      calls (fst (startProcessing e w)) = calls w \<and>
      last (logged (fst (startProcessing e w))) =
        (WARN, ''S3 bucket not configured, skipping S3 processing'', None) \<and>
      snd (deliver [(e1, Resume)] (startProcessing e w)) = AwaitStream LocalFile [] \<and>
      calls (fst (deliver [(e1, Resume)] (startProcessing e w))) =
        calls w @ [FsCreateReadStream])"
proof -
  have list_fail: "deliver [(e, ListResult (Inl x)), (e1, Resume), (e2, Resume)] (w, AwaitList b) =
        (startProcessing_finally
           (w\<lparr>logged := logged w @
                [(ERROR, ''Failed to process S3 CSV'', Some (catch_meta x)),
                 (ERROR, (case x of JsError m \<Rightarrow> m | NonError s \<Rightarrow> s), None)]\<rparr>),
         Finished Resolved)"
    by (simp add: resume_def processFromS3_catch_def startProcessing_catch_def
        startProcessing_finally_def logger_def split: thrown.splits)
  have stream_fail: "deliver [(e, StreamError x), (e1, Resume), (e2, Resume)]
          (w, AwaitStream (Remote k) ups) =
        (startProcessing_finally
           (w\<lparr>logged := logged w @
                [(ERROR, ''Failed to process S3 CSV'', Some (catch_meta x)),
                 (ERROR, (case x of JsError m \<Rightarrow> m | NonError s \<Rightarrow> s), None)]\<rparr>),
         Finished Resolved)"
    by (simp add: resume_def processFromS3_catch_def startProcessing_catch_def
        startProcessing_finally_def logger_def split: thrown.splits)
  have list_step: "deliver ((e, ListResult (Inl x)) # evs) (w, AwaitList b) =
      deliver evs (logger ERROR ''Failed to process S3 CSV'' (Some (catch_meta x)) w,
                   SourceSettled FromS3 (Rejected x))"
    by (simp add: resume_def processFromS3_catch_def)
  have stream_step: "deliver ((e, StreamError x) # evs) (w, AwaitStream (Remote k) ups) =
      deliver evs (w, StreamSettled (Remote k) (Rejected x))"
    by (simp add: resume_def)
  have list_after:
    "calls (fst (deliver ((e, ListResult (Inl x)) # evs) (w, AwaitList b))) = calls w"
    "gave_up x (snd (deliver ((e, ListResult (Inl x)) # evs) (w, AwaitList b)))"
    using deliver_gave_up [of x "SourceSettled FromS3 (Rejected x)" evs
        "logger ERROR ''Failed to process S3 CSV'' (Some (catch_meta x)) w"]
    unfolding list_step by (simp_all add: logger_def)
  have stream_after:
    "calls (fst (deliver ((e, StreamError x) # evs) (w, AwaitStream (Remote k) ups))) = calls w"
    "gave_up x (snd (deliver ((e, StreamError x) # evs) (w, AwaitStream (Remote k) ups)))"
    using deliver_gave_up [of x "StreamSettled (Remote k) (Rejected x)" evs w]
    unfolding stream_step by simp_all
  have skip: "\<not> processingLock (svc w) \<and> existsSync e1 \<and>
    (AWS_S3_BUCKET e = None \<or> AWS_S3_BUCKET e = Some []) \<longrightarrow>
      snd (startProcessing e w) = SourceSettled FromS3 Resolved \<and>
      calls (fst (startProcessing e w)) = calls w \<and>
      last (logged (fst (startProcessing e w))) =
        (WARN, ''S3 bucket not configured, skipping S3 processing'', None) \<and>
      snd (deliver [(e1, Resume)] (startProcessing e w)) = AwaitStream LocalFile [] \<and>
      calls (fst (deliver [(e1, Resume)] (startProcessing e w))) =
        calls w @ [FsCreateReadStream]"
    by (auto simp: startProcessing_def processFromS3_def processFromLocal_def resume_def
        logger_def extern_def)
  from list_fail stream_fail list_after stream_after skip show ?thesis
    by blast
qed

theorem remote_error_witness:
  "deliver [(env_s3, ListResult (Inl (JsError ''NetworkingError''))), (env_s3, Resume),
            (env_s3, Resume)] (fst (run [Call env_s3]), AwaitList ''feeds'') =
     (\<lparr>svc = \<lparr>isProcessing = False, processingQueue = [], processingLock = False\<rparr>,
       logged = [(INFO, ''Starting price processing from S3 CSV'', None),
                 (ERROR, ''Failed to process S3 CSV'', Some ''NetworkingError''),
                 (ERROR, ''NetworkingError'', None)],
       calls = [S3ListObjectsV2 ''feeds'' ''price-updates/'']\<rparr>,
      Finished Resolved) \<and>
   deliver [(env_local, Resume)] (startProcessing env_local initial) =
     (\<lparr>svc = \<lparr>isProcessing = True, processingQueue = [], processingLock = True\<rparr>,
       logged = [(INFO, ''Starting price processing from S3 CSV'', None),
                 (WARN, ''S3 bucket not configured, skipping S3 processing'', None),
                 (INFO, ''Processing local CSV file'', None)],
       calls = [FsCreateReadStream]\<rparr>,
      AwaitStream LocalFile [])"
proof -
  have busy: "fst (run [Call env_s3]) =
     \<lparr>svc = \<lparr>isProcessing = True, processingQueue = [], processingLock = True\<rparr>,
       logged = [(INFO, ''Starting price processing from S3 CSV'', None)],
       calls = [S3ListObjectsV2 ''feeds'' ''price-updates/'']\<rparr>"
    by (simp add: run_def initial_def env_s3_def startProcessing_def processFromS3_def
        logger_def extern_def)
  have local: "deliver [(env_local, Resume)] (startProcessing env_local initial) =
     (\<lparr>svc = \<lparr>isProcessing = True, processingQueue = [], processingLock = True\<rparr>,
       logged = [(INFO, ''Starting price processing from S3 CSV'', None),
                 (WARN, ''S3 bucket not configured, skipping S3 processing'', None),
                 (INFO, ''Processing local CSV file'', None)],
       calls = [FsCreateReadStream]\<rparr>,
      AwaitStream LocalFile [])"
    by (simp add: initial_def env_local_def startProcessing_def processFromS3_def
        processFromLocal_def resume_def logger_def extern_def)
  from remote_error_ends_run [of "ListResult (Inl (JsError ''NetworkingError''))"
      "JsError ''NetworkingError''" "AwaitList ''feeds''" "''feeds''" "''k''" "[]"
      env_s3 env_s3 env_s3 "fst (run [Call env_s3])" "[]"]
    busy local
  show ?thesis
    by (simp add: startProcessing_finally_def catch_meta_def)
qed

text \<open>
  The claim fails where the listing request raises an error although the local file
  exists: the call settles and the file has not been opened.
\<close>

theorem remote_error_skips_fallback:
  "snd (run (failed_listing @ [Deliver 0 env_s3 Resume])) = [Finished Resolved] \<and>
   existsSync env_s3 \<and>
   calls (fst (run (failed_listing @ [Deliver 0 env_s3 Resume]))) =
     [S3ListObjectsV2 ''feeds'' ''price-updates/''] \<and>
   FsCreateReadStream \<notin> set (calls (fst (run (failed_listing @ [Deliver 0 env_s3 Resume]))))"
  by (simp add: run_snoc run_failed_listing resume_def startProcessing_finally_def
      startProcessing_catch_def logger_def env_s3_def)

section \<open>Parsing the rows\<close>

lemmas parse_defs =
  parseFloat_def unsigned_literal_def exponent_part_def digits_val_def is_digit_def
  is_white_def

lemma deliver_rows:
  "deliver (map (\<lambda>(e, r). (e, Data r)) rows @ evs) (w, AwaitStream f ups) =
   deliver evs (w, AwaitStream f (collected rows ups))"
proof (induction rows arbitrary: ups)
  case Nil
  show ?case by (simp add: collected_def)
next
  case (Cons a rows)
  obtain e r where a: "a = (e, r)" by (cases a)
  from Cons [of "on_data e r ups"] a show ?case
    by (simp add: resume_def collected_def)
qed

lemma length_collected: "length (collected rows ups) = length ups + length rows"
  unfolding collected_def
  by (induction rows arbitrary: ups) (auto simp: on_data_def)

lemma newPrice_collected:
  "map newPrice (collected rows ups) =
   map newPrice ups @ map (\<lambda>(e, r). parseFloat (r ''new_price'')) rows"
  unfolding collected_def
  by (induction rows arbitrary: ups) (auto simp: on_data_def)

lemma parseFloat_not_numeric:
  assumes "\<not> is_white c" and "\<not> is_digit c" and "c \<notin> set ''+-.I''"
  shows "parseFloat (Some (c # rest)) = NaN"
  using assms by (simp add: parseFloat_def unsigned_literal_def)

lemma parseFloat_empty: "parseFloat (Some []) = NaN"
  by (simp add: parseFloat_def)

text \<open>
  C4, as the code has it. A price that is not a number does not fail the parse: the
  \<^verbatim>\<open>data\<close> handler turns every row into one record, in file order, with the price that
  \<^verbatim>\<open>parseFloat\<close> gives, which is NaN for an empty text and for a text whose first
  character is an ASCII character other than white space, a digit, a sign, a dot or the
  letter I; at the end of the stream \<^verbatim>\<open>processCSVStream\<close> resolves, and one line of level info is
  logged.
\<close>

theorem bad_price_is_parsed_as_NaN:
  "deliver (map (\<lambda>(e, r). (e, Data r)) rows) (w, AwaitStream f []) =
     (w, AwaitStream f (collected rows [])) \<and>
   length (collected rows []) = length rows \<and>
   map newPrice (collected rows []) = map (\<lambda>(e, r). parseFloat (r ''new_price'')) rows \<and>
   deliver (map (\<lambda>(e, r). (e, Data r)) rows @ [(e1, End), (e2, Resume)])
       (w, AwaitStream f []) =
     (processUpdatesConcurrently (collected rows []) w, StreamSettled f Resolved) \<and>
   logged (processUpdatesConcurrently (collected rows []) w) =
     logged w @ [(INFO, if rows = [] then ''No price updates to process''
                        else ''Price updates processed successfully'', None)] \<and>
   ((of_char c :: nat) < 128 \<and> \<not> is_white c \<and> \<not> is_digit c \<and> c \<notin> set ''+-.I'' \<longrightarrow>
      parseFloat (Some (c # rest)) = NaN) \<and>
   parseFloat (Some []) = NaN"
proof -
  have a: "deliver (map (\<lambda>(e, r). (e, Data r)) rows) (w, AwaitStream f []) =
     (w, AwaitStream f (collected rows []))"
    using deliver_rows [of rows "[]" w f "[]"] by simp
  have b: "deliver (map (\<lambda>(e, r). (e, Data r)) rows @ [(e1, End), (e2, Resume)])
       (w, AwaitStream f []) =
     (processUpdatesConcurrently (collected rows []) w, StreamSettled f Resolved)"
    by (simp add: deliver_rows resume_def)
  have c: "logged (processUpdatesConcurrently (collected rows []) w) =
     logged w @ [(INFO, if rows = [] then ''No price updates to process''
                        else ''Price updates processed successfully'', None)]"
    by (simp add: processUpdatesConcurrently_def length_collected logger_def)
  from a b c length_collected [of rows "[]"] newPrice_collected [of rows "[]"]
    parseFloat_not_numeric [of c rest] parseFloat_empty
  show ?thesis by simp
qed

theorem bad_price_witness:
  "(of_char CHR ''a'' :: nat) < 128 \<and>
   \<not> is_white CHR ''a'' \<and> \<not> is_digit CHR ''a'' \<and> CHR ''a'' \<notin> set ''+-.I'' \<and>
   parseFloat (Some ''abc'') = NaN \<and>
   deliver (map (\<lambda>(e, r). (e, Data r))
              [(env_local, row_of ''v1'' ''100''), (env_local, row_of ''v3'' ''abc'')] @
            [(env_local, End), (env_local, Resume)]) (initial, AwaitStream LocalFile []) =
     (\<lparr>svc = svc initial,
       logged = [(INFO, ''Price updates processed successfully'', None)],
       calls = []\<rparr>,
      StreamSettled LocalFile Resolved)"
proof -
  have ch: "(of_char CHR ''a'' :: nat) < 128 \<and>
      \<not> is_white CHR ''a'' \<and> \<not> is_digit CHR ''a'' \<and> CHR ''a'' \<notin> set ''+-.I''"
    by (simp add: is_white_def is_digit_def)
  have lg: "processUpdatesConcurrently
      (collected [(env_local, row_of ''v1'' ''100''), (env_local, row_of ''v3'' ''abc'')] [])
      initial =
     \<lparr>svc = svc initial,
       logged = [(INFO, ''Price updates processed successfully'', None)],
       calls = []\<rparr>"
    by (simp add: processUpdatesConcurrently_def length_collected logger_def initial_def)
  from bad_price_is_parsed_as_NaN
    [of "[(env_local, row_of ''v1'' ''100''), (env_local, row_of ''v3'' ''abc'')]"
      initial LocalFile env_local env_local "CHR ''a''" "''bc''"] ch lg
  show ?thesis by simp
qed

text \<open>
  The claim fails on a file of five rows whose third price is \<^verbatim>\<open>abc\<close>: five records are
  collected, the promise of \<^verbatim>\<open>processCSVStream\<close> is resolved, no error is logged.
\<close>

theorem bad_price_does_not_fail_parse:
  "snd (run (take 7 bad_feed)) =
     [AwaitStream LocalFile
        [\<lparr>vehicleId = Some ''v1'', newPrice = Dec False 100 0, timestamp = 2000\<rparr>,
         \<lparr>vehicleId = Some ''v2'', newPrice = Dec False 200 0, timestamp = 2000\<rparr>,
         \<lparr>vehicleId = Some ''v3'', newPrice = NaN, timestamp = 2000\<rparr>,
         \<lparr>vehicleId = Some ''v4'', newPrice = Dec False 400 0, timestamp = 2000\<rparr>,
         \<lparr>vehicleId = Some ''v5'', newPrice = Dec False 500 0, timestamp = 2000\<rparr>]] \<and>
   snd (run bad_feed) = [StreamSettled LocalFile Resolved] \<and>
   logged (fst (run bad_feed)) =
     [(INFO, ''Starting price processing from S3 CSV'', None),
      (WARN, ''S3 bucket not configured, skipping S3 processing'', None),
      (INFO, ''Processing local CSV file'', None),
      (INFO, ''Price updates processed successfully'', None)]"
  by (simp add: bad_feed_def run_def initial_def env_local_def row_of_def resume_def
      startProcessing_def processFromS3_def processFromLocal_def
      processUpdatesConcurrently_def logger_def extern_def on_data_def parse_defs)

lemma digit_facts:
  assumes "is_digit d"
  shows "\<not> is_white d" and "d \<noteq> CHR ''+''" and "d \<noteq> CHR ''-''" and "d \<noteq> CHR ''.''"
    and "d \<noteq> CHR ''I''"
  using assms by (auto simp: is_digit_def is_white_def)

lemma unsigned_literal_digit:
  assumes "is_digit d"
  shows "\<exists>m ex. unsigned_literal neg (d # rest) = Dec neg m ex"
  using assms digit_facts(5) [OF assms]
  by (auto simp: unsigned_literal_def Let_def split: list.splits)

lemma parseFloat_digit:
  assumes "is_digit d"
  shows "\<exists>m ex. parseFloat (Some (d # rest)) = Dec False m ex"
  using unsigned_literal_digit [OF assms, of False rest] digit_facts [OF assms]
  by (simp add: parseFloat_def)

lemma parseFloat_minus_digit:
  assumes "is_digit d"
  shows "\<exists>m ex. parseFloat (Some (CHR ''-'' # d # rest)) = Dec True m ex"
  using unsigned_literal_digit [OF assms, of True rest]
  by (simp add: parseFloat_def is_white_def)

text \<open>
  C8, as the code has it. The record of a row takes its identifier from the column
  \<^verbatim>\<open>vehicle_id\<close>, its time from the clock at the moment the row is handled, whatever
  the row holds, and its price from \<^verbatim>\<open>parseFloat\<close> of the column \<^verbatim>\<open>new_price\<close>:
  non-negative when the text starts with a digit, a number with a minus sign when it
  starts with a minus sign and a digit, and NaN when the column is missing.
\<close>

theorem record_of_row:
  "on_data e r ups =
     ups @ [\<lparr>vehicleId = r ''vehicle_id'', newPrice = parseFloat (r ''new_price''),
             timestamp = now e\<rparr>] \<and>
   newPrice (last (on_data e r ups)) = parseFloat (r ''new_price'') \<and>
   timestamp (last (on_data e r ups)) = now e \<and>
   timestamp (last (on_data e r ups)) = timestamp (last (on_data e r' ups')) \<and>
   (is_digit d \<and> r ''new_price'' = Some (d # rest) \<longrightarrow>
      ge_zero (newPrice (last (on_data e r ups)))) \<and>
   (is_digit d \<and> r ''new_price'' = Some (CHR ''-'' # d # rest) \<longrightarrow>
      (\<exists>m ex. newPrice (last (on_data e r ups)) = Dec True m ex)) \<and>
   (r ''new_price'' = None \<longrightarrow> newPrice (last (on_data e r ups)) = NaN)"
proof -
  have pos: "is_digit d \<and> r ''new_price'' = Some (d # rest) \<longrightarrow>
      ge_zero (newPrice (last (on_data e r ups)))"
    using parseFloat_digit [of d rest] by (auto simp: on_data_def)
  have neg: "is_digit d \<and> r ''new_price'' = Some (CHR ''-'' # d # rest) \<longrightarrow>
      (\<exists>m ex. newPrice (last (on_data e r ups)) = Dec True m ex)"
    using parseFloat_minus_digit [of d rest] by (auto simp: on_data_def)
  have missing: "r ''new_price'' = None \<longrightarrow> newPrice (last (on_data e r ups)) = NaN"
    by (simp add: on_data_def parse_defs)
  from pos neg missing show ?thesis
    by (simp add: on_data_def)
qed

theorem record_of_row_witness:
  "is_digit CHR ''5'' \<and>
   on_data env_s3 (row_of ''v1'' ''-5'') [] =
     [\<lparr>vehicleId = Some ''v1'', newPrice = Dec True 5 0, timestamp = 1000\<rparr>] \<and>
   on_data env_s3 (row_of ''v1'' ''5'') [] =
     [\<lparr>vehicleId = Some ''v1'', newPrice = Dec False 5 0, timestamp = 1000\<rparr>] \<and>
   ge_zero (newPrice (last (on_data env_s3 (row_of ''v1'' ''5'') [])))"
proof -
  have d: "is_digit CHR ''5''" by (simp add: is_digit_def)
  have p: "row_of ''v1'' ''5'' ''new_price'' = Some (CHR ''5'' # [])"
    by (simp add: row_of_def)
  have a: "on_data env_s3 (row_of ''v1'' ''-5'') [] =
     [\<lparr>vehicleId = Some ''v1'', newPrice = Dec True 5 0, timestamp = 1000\<rparr>]"
    by (simp add: on_data_def env_s3_def row_of_def parse_defs)
  have b: "on_data env_s3 (row_of ''v1'' ''5'') [] =
     [\<lparr>vehicleId = Some ''v1'', newPrice = Dec False 5 0, timestamp = 1000\<rparr>]"
    by (simp add: on_data_def env_s3_def row_of_def parse_defs)
  from record_of_row [of env_s3 "row_of ''v1'' ''5''" "[]" "row_of ''v1'' ''5''" "[]"
      "CHR ''5''" "[]"] d p
  have gz: "ge_zero (newPrice (last (on_data env_s3 (row_of ''v1'' ''5'') [])))"
    by blast
  from d a b gz show ?thesis by blast
qed

text \<open>The claim fails on a row whose price is \<^verbatim>\<open>-5\<close>: the record holds a negative price.\<close>

theorem negative_price_is_recorded:
  "newPrice (last (on_data env_s3 (row_of ''v1'' ''-5'') [])) = Dec True 5 0 \<and>
   \<not> ge_zero (newPrice (last (on_data env_s3 (row_of ''v1'' ''-5'') [])))"
  by (simp add: on_data_def env_s3_def row_of_def parse_defs)

end
